theory Spec2Isabelle
  imports Main
begin

section \<open>The service worker \<open>sw.js\<close>: host runtime and handlers\<close>

text \<open>
  The script registers three event handlers (install, activate, fetch) that orchestrate
  two capabilities of the hosting browser: the network (\<open>fetch\<close>) and the cache storage
  (\<open>caches.open\<close>, \<open>caches.match\<close>, \<open>caches.keys\<close>, \<open>caches.delete\<close>, \<open>cache.put\<close>,
  \<open>cache.add\<close>). The handlers are embedded as state-passing functions over a \<open>world\<close>
  that holds the cache storage together with a record of what the script did: the host
  calls it made, its console output, and the rejections nobody handled.
  What the host answers is a parameter (\<open>host\<close>): the network may resolve or reject any
  request, and opening a store or writing an entry may fail; during one event the host
  answers the same request the same way. Lookups, key enumeration and deletion are
  total, as in the Cache API, where a lookup without match resolves with \<open>undefined\<close>
  and a deletion resolves with a boolean.
\<close>

subsection \<open>Requests, responses, errors\<close>

record request =
  req_method :: string
  req_url :: string
  req_mode :: string
  req_cache :: string

record response =
  resp_status :: nat
  resp_type :: string
  resp_body :: string

datatype error = TypeError | QuotaExceededError | SecurityError | UnknownError

text \<open>An entry of a store is found by the request's method and URL.\<close>

type_synonym key = "string \<times> string"

type_synonym store = "key \<rightharpoonup> response"

definition cache_key :: "request \<Rightarrow> key" where
  "cache_key rq = (req_method rq, req_url rq)"

text \<open>\<open>new Request(url, {cache: c})\<close>: a GET request with the default mode.\<close>

definition new_Request :: "string \<Rightarrow> string \<Rightarrow> request" where
  "new_Request u c = \<lparr>req_method = ''GET'', req_url = u, req_mode = ''cors'', req_cache = c\<rparr>"

text \<open>\<open>response.clone()\<close>: a copy with the same status, type and body.\<close>

definition clone :: "response \<Rightarrow> response" where
  "clone r = \<lparr>resp_status = resp_status r, resp_type = resp_type r, resp_body = resp_body r\<rparr>"

subsection \<open>The world\<close>

datatype call =
    Fetch request
  | CachesOpen string
  | CachesMatch request
  | CachesKeys
  | CachesDelete string
  | CachePut string request response
  | SkipWaiting
  | ClientsClaim

datatype level = Log | Warn | Error

datatype arg = Str string | Err error

record world =
  stores :: "(string \<times> store) list"
  calls :: "call list"
  console :: "(level \<times> arg list) list"
  unhandled :: "error list"

record host =
  net :: "request \<Rightarrow> error + response option"
  open_error :: "string \<Rightarrow> error option"
  put_error :: "string \<Rightarrow> request \<Rightarrow> response \<Rightarrow> error option"

subsection \<open>Promises\<close>

text \<open>
  A promise is the computation that settles it: run on a world, it yields the outcome
  (\<open>Inl\<close> a rejection, \<open>Inr\<close> the value it resolves with) and the world at that moment.
  A chain is run to settlement at the place where the source builds it. What a handler
  does after building a chain (\<open>skipWaiting\<close>, \<open>clients.claim\<close>, returning the
  response) neither reads nor writes the cache storage, so this is one of the orders the
  runtime allows, and the others differ from it in the order of the recorded calls only.
\<close>

type_synonym 'a promise = "world \<Rightarrow> (error + 'a) \<times> world"

definition resolve :: "'a \<Rightarrow> 'a promise" where
  "resolve v w = (Inr v, w)"

definition reject :: "error \<Rightarrow> 'a promise" where
  "reject e w = (Inl e, w)"

definition then_p :: "'a promise \<Rightarrow> ('a \<Rightarrow> 'b promise) \<Rightarrow> 'b promise" where
  "then_p p f w = (case p w of (Inl e, w1) \<Rightarrow> (Inl e, w1) | (Inr v, w1) \<Rightarrow> f v w1)"

definition catch_p :: "'a promise \<Rightarrow> (error \<Rightarrow> 'a promise) \<Rightarrow> 'a promise" where
  "catch_p p g w = (case p w of (Inl e, w1) \<Rightarrow> g e w1 | (Inr v, w1) \<Rightarrow> (Inr v, w1))"

text \<open>A promise whose value is dropped (the value never matters to \<open>waitUntil\<close>).\<close>

definition void :: "'a promise \<Rightarrow> unit promise" where
  "void p = then_p p (\<lambda>_. resolve ())"

text \<open>
  A promise that the script builds and lets go: nothing is attached to it, so a
  rejection is an unhandled rejection.
\<close>

definition detach :: "'a promise \<Rightarrow> world \<Rightarrow> world" where
  "detach p w = (case p w of
      (Inl e, w1) \<Rightarrow> w1\<lparr>unhandled := unhandled w1 @ [e]\<rparr>
    | (Inr v, w1) \<Rightarrow> w1)"

text \<open>
  \<open>Promise.all\<close>: every promise of the list settles; the result rejects with the first
  rejection, and resolves with all the values otherwise.
\<close>

fun promise_all :: "'a promise list \<Rightarrow> 'a list promise" where
  "promise_all [] w = (Inr [], w)"
| "promise_all (p # ps) w =
     (case p w of (r, w1) \<Rightarrow>
        (case promise_all ps w1 of (rs, w2) \<Rightarrow>
           ((case r of
               Inl e \<Rightarrow> Inl e
             | Inr v \<Rightarrow> (case rs of Inl e \<Rightarrow> Inl e | Inr vs \<Rightarrow> Inr (v # vs))), w2)))"

subsection \<open>Host operations\<close>

definition called :: "call \<Rightarrow> world \<Rightarrow> world" where
  "called c w = w\<lparr>calls := calls w @ [c]\<rparr>"

definition console_log :: "arg list \<Rightarrow> world \<Rightarrow> world" where
  "console_log args w = w\<lparr>console := console w @ [(Log, args)]\<rparr>"

definition console_warn :: "arg list \<Rightarrow> world \<Rightarrow> world" where
  "console_warn args w = w\<lparr>console := console w @ [(Warn, args)]\<rparr>"

definition console_error :: "arg list \<Rightarrow> world \<Rightarrow> world" where
  "console_error args w = w\<lparr>console := console w @ [(Error, args)]\<rparr>"

definition fetch :: "host \<Rightarrow> request \<Rightarrow> response option promise" where
  "fetch h rq w = (net h rq, called (Fetch rq) w)"

text \<open>\<open>caches.open(name)\<close>: the store is created when absent; the handle is its name.\<close>

definition caches_open :: "host \<Rightarrow> string \<Rightarrow> string promise" where
  "caches_open h n w =
     (case open_error h n of
        Some e \<Rightarrow> (Inl e, called (CachesOpen n) w)
      | None \<Rightarrow>
          (Inr n, called (CachesOpen n)
             (if n \<in> fst ` set (stores w) then w
              else w\<lparr>stores := stores w @ [(n, Map.empty)]\<rparr>)))"

text \<open>\<open>caches.match(request)\<close>: the first match over all stores, in creation order.\<close>

fun match_all :: "(string \<times> store) list \<Rightarrow> key \<Rightarrow> response option" where
  "match_all [] k = None"
| "match_all ((n, s) # rest) k = (case s k of Some r \<Rightarrow> Some r | None \<Rightarrow> match_all rest k)"

definition caches_match :: "request \<Rightarrow> response option promise" where
  "caches_match rq w = (Inr (match_all (stores w) (cache_key rq)), called (CachesMatch rq) w)"

definition caches_keys :: "string list promise" where
  "caches_keys w = (Inr (map fst (stores w)), called CachesKeys w)"

text \<open>\<open>caches.delete(name)\<close> resolves with whether a store of that name existed.\<close>

definition caches_delete :: "string \<Rightarrow> bool option promise" where
  "caches_delete n w =
     (Inr (Some (n \<in> fst ` set (stores w))),
      called (CachesDelete n) (w\<lparr>stores := filter (\<lambda>p. fst p \<noteq> n) (stores w)\<rparr>))"

definition put_entry :: "string \<Rightarrow> key \<Rightarrow> response \<Rightarrow> (string \<times> store) list \<Rightarrow> (string \<times> store) list" where
  "put_entry n k r ss = map (\<lambda>(m, s). if m = n then (m, s(k \<mapsto> r)) else (m, s)) ss"

definition cache_put :: "host \<Rightarrow> string \<Rightarrow> request \<Rightarrow> response \<Rightarrow> unit promise" where
  "cache_put h n rq r w =
     (case put_error h n rq r of
        Some e \<Rightarrow> (Inl e, called (CachePut n rq r) w)
      | None \<Rightarrow>
          (Inr (), called (CachePut n rq r)
             (w\<lparr>stores := put_entry n (cache_key rq) r (stores w)\<rparr>)))"

text \<open>
  \<open>cache.add(request)\<close> fetches the request and stores the response; it rejects when the
  fetch rejects and when the response's status is outside 200..299 or is 206.
\<close>

definition cache_add :: "host \<Rightarrow> string \<Rightarrow> request \<Rightarrow> unit promise" where
  "cache_add h n rq =
     then_p (fetch h rq) (\<lambda>r.
       case r of
         None \<Rightarrow> reject TypeError
       | Some r \<Rightarrow>
           if 200 \<le> resp_status r \<and> resp_status r \<le> 299 \<and> resp_status r \<noteq> 206
           then cache_put h n rq r
           else reject TypeError)"

definition skipWaiting :: "world \<Rightarrow> world" where
  "skipWaiting w = called SkipWaiting w"

definition clients_claim :: "world \<Rightarrow> world" where
  "clients_claim w = called ClientsClaim w"

text \<open>\<open>xs.indexOf(x)\<close>: the first position of \<open>x\<close>, or -1.\<close>

fun indexOf_from :: "'a list \<Rightarrow> 'a \<Rightarrow> int \<Rightarrow> int" where
  "indexOf_from [] x i = - 1"
| "indexOf_from (y # ys) x i = (if y = x then i else indexOf_from ys x (i + 1))"

definition indexOf :: "'a list \<Rightarrow> 'a \<Rightarrow> int" where
  "indexOf xs x = indexOf_from xs x 0"

subsection \<open>Constants of the script\<close>

definition CACHE_NAME :: string where
  "CACHE_NAME = ''dosage-calculator-cache-v1.3''"

definition urlsToCache :: "string list" where
  "urlsToCache = [''./'', ''./index.html'']"

subsection \<open>Install\<close>

text \<open>
  The handler over any pre-cache list; the script runs it on \<open>urlsToCache\<close>. The result
  is the outcome of the promise given to \<open>event.waitUntil\<close>.
\<close>

definition precache_one :: "host \<Rightarrow> string \<Rightarrow> string \<Rightarrow> unit promise" where
  "precache_one h cache urlToCache =
     catch_p (cache_add h cache (new_Request urlToCache ''reload''))
       (\<lambda>err w. resolve ()
          (console_warn [Str (''[ServiceWorker] Failed to cache '' @ urlToCache @ '':''), Err err] w))"

definition install_with :: "host \<Rightarrow> string list \<Rightarrow> world \<Rightarrow> (error + unit) \<times> world" where
  "install_with h urls w =
     (let w1 = console_log [Str ''[ServiceWorker] Install''] w in
      case catch_p
             (then_p (caches_open h CACHE_NAME) (\<lambda>cache w.
                let w' = console_log [Str ''[ServiceWorker] Caching app shell''] w;
                    cachePromises = map (precache_one h cache) urls
                in void (promise_all cachePromises) w'))
             (\<lambda>error w. resolve ()
                (console_error [Str ''[ServiceWorker] Failed to cache during install:'', Err error] w))
             w1 of
        (out, w2) \<Rightarrow> (out, skipWaiting w2))"

definition install_handler :: "host \<Rightarrow> world \<Rightarrow> (error + unit) \<times> world" where
  "install_handler h w = install_with h urlsToCache w"

subsection \<open>Activate\<close>

definition delete_old :: "string list \<Rightarrow> string \<Rightarrow> bool option promise" where
  "delete_old cacheWhitelist cacheName =
     (if indexOf cacheWhitelist cacheName = - 1 then
        (\<lambda>w. caches_delete cacheName
                (console_log [Str ''[ServiceWorker] Deleting old cache:'', Str cacheName] w))
      else resolve None)"

definition activate_handler :: "host \<Rightarrow> world \<Rightarrow> (error + unit) \<times> world" where
  "activate_handler h w =
     (let w1 = console_log [Str ''[ServiceWorker] Activate''] w;
          cacheWhitelist = [CACHE_NAME]
      in case then_p caches_keys (\<lambda>cacheNames.
                void (promise_all (map (delete_old cacheWhitelist) cacheNames))) w1 of
           (out, w2) \<Rightarrow> (out, clients_claim w2))"

subsection \<open>Fetch\<close>

text \<open>
  The result of the fetch handler: either it returned without calling
  \<open>event.respondWith\<close> (the browser then handles the request itself), or it responded
  with a promise, whose outcome is recorded; resolving with \<open>None\<close> is resolving with
  \<open>undefined\<close>.
\<close>

datatype fetch_result = NotHandled | RespondWith "error + response option"

definition navigate_fallback :: "request \<Rightarrow> response option \<Rightarrow> response option promise" where
  "navigate_fallback rq response =
     then_p (caches_match rq) (\<lambda>cachedResponse w.
       case cachedResponse of
         Some c \<Rightarrow>
           resolve cachedResponse
             (console_log [Str ''[ServiceWorker] Serving from cache (navigate - network failed):'',
                           Str (req_url rq)] w)
       | None \<Rightarrow>
           resolve response
             (console_log [Str ''[ServiceWorker] Network and cache failed for navigate:'',
                           Str (req_url rq)] w))"

definition navigate_then :: "host \<Rightarrow> request \<Rightarrow> response option \<Rightarrow> response option promise" where
  "navigate_then h rq response =
     (case response of
        None \<Rightarrow> navigate_fallback rq response
      | Some r \<Rightarrow>
          if resp_status r \<noteq> 200 \<or> resp_type r \<noteq> ''basic'' then navigate_fallback rq response
          else (\<lambda>w.
            let responseToCache = clone r;
                w1 = detach
                       (then_p (caches_open h CACHE_NAME) (\<lambda>cache w.
                          let w' = console_log [Str ''[ServiceWorker] Caching new response (navigate):'',
                                                Str (req_url rq)] w
                          in resolve () (detach (cache_put h cache rq responseToCache) w'))) w
            in resolve response w1))"

definition navigate_catch :: "request \<Rightarrow> response option promise" where
  "navigate_catch rq =
     then_p (caches_match rq) (\<lambda>cachedResponse w.
       case cachedResponse of
         Some c \<Rightarrow>
           resolve cachedResponse
             (console_log [Str ''[ServiceWorker] Serving from cache (navigate - network error):'',
                           Str (req_url rq)] w)
       | None \<Rightarrow>
           resolve None
             (console_log [Str ''[ServiceWorker] No cache match for navigate after network error:'',
                           Str (req_url rq)] w))"

definition asset_network :: "host \<Rightarrow> request \<Rightarrow> response option \<Rightarrow> response option promise" where
  "asset_network h rq networkResponse =
     (case networkResponse of
        None \<Rightarrow> resolve networkResponse
      | Some r \<Rightarrow>
          if resp_status r \<noteq> 200 then resolve networkResponse
          else (\<lambda>w.
            let responseToCache = clone r;
                w1 = detach
                       (then_p (caches_open h CACHE_NAME) (\<lambda>cache w.
                          resolve () (detach (cache_put h cache rq responseToCache) w))) w
            in resolve networkResponse w1))"

definition asset_then :: "host \<Rightarrow> request \<Rightarrow> response option \<Rightarrow> response option promise" where
  "asset_then h rq response =
     (case response of
        Some c \<Rightarrow> resolve response
      | None \<Rightarrow>
          catch_p (then_p (fetch h rq) (asset_network h rq))
            (\<lambda>error w. resolve None
               (console_warn [Str ''[ServiceWorker] Fetch failed for asset:'',
                              Str (req_url rq), Err error] w)))"

definition fetch_handler :: "host \<Rightarrow> request \<Rightarrow> world \<Rightarrow> fetch_result \<times> world" where
  "fetch_handler h rq w =
     (if req_method rq \<noteq> ''GET'' then (NotHandled, w)
      else if req_mode rq = ''navigate'' then
        (case catch_p (then_p (fetch h rq) (navigate_then h rq)) (\<lambda>_. navigate_catch rq) w of
           (out, w1) \<Rightarrow> (RespondWith out, w1))
      else
        (case then_p (caches_match rq) (asset_then h rq) w of
           (out, w1) \<Rightarrow> (RespondWith out, w1)))"

subsection \<open>Notions used in the statements\<close>

text \<open>The host calls made between two worlds (the record of calls only grows).\<close>

definition new_calls :: "world \<Rightarrow> world \<Rightarrow> call list" where
  "new_calls w w' = drop (length (calls w)) (calls w')"

text \<open>The entry of the store named \<open>n\<close> under a key, if the store and the entry exist.\<close>

definition lookup_store :: "string \<Rightarrow> (string \<times> store) list \<Rightarrow> key \<Rightarrow> response option" where
  "lookup_store n ss k = (case map_of ss n of None \<Rightarrow> None | Some s \<Rightarrow> s k)"

text \<open>The key has the entry \<open>c\<close> in the store named \<open>n\<close>, and no entry in any other store.\<close>

definition entry_only_in :: "string \<Rightarrow> key \<Rightarrow> response \<Rightarrow> (string \<times> store) list \<Rightarrow> bool" where
  "entry_only_in n k c ss =
     (n \<in> fst ` set ss \<and> (\<forall>(m, s) \<in> set ss. s k = (if m = n then Some c else None)))"

text \<open>
  What \<open>cache.add\<close> settles with on a host, for a store name and a request: the
  response it stored, or the rejection. (The host answers a request the same way
  throughout one event.)
\<close>

definition add_result :: "host \<Rightarrow> string \<Rightarrow> request \<Rightarrow> error + response" where
  "add_result h n rq =
     (case net h rq of
        Inl e \<Rightarrow> Inl e
      | Inr None \<Rightarrow> Inl TypeError
      | Inr (Some r) \<Rightarrow>
          if 200 \<le> resp_status r \<and> resp_status r \<le> 299 \<and> resp_status r \<noteq> 206 then
            (case put_error h n rq r of Some e \<Rightarrow> Inl e | None \<Rightarrow> Inr r)
          else Inl TypeError)"

subsection \<open>Concrete requests, responses, hosts and worlds\<close>

definition page_request :: request where
  "page_request = \<lparr>req_method = ''GET'', req_url = ''./index.html'',
                    req_mode = ''navigate'', req_cache = ''default''\<rparr>"

definition asset_request :: request where
  "asset_request = \<lparr>req_method = ''GET'', req_url = ''./icon-192x192.png'',
                     req_mode = ''no-cors'', req_cache = ''default''\<rparr>"

definition post_request :: request where
  "post_request = \<lparr>req_method = ''POST'', req_url = ''./index.html'',
                    req_mode = ''cors'', req_cache = ''default''\<rparr>"

definition ok_response :: response where
  "ok_response = \<lparr>resp_status = 200, resp_type = ''basic'', resp_body = ''new''\<rparr>"

definition old_response :: response where
  "old_response = \<lparr>resp_status = 200, resp_type = ''basic'', resp_body = ''old''\<rparr>"

definition not_found :: response where
  "not_found = \<lparr>resp_status = 404, resp_type = ''basic'', resp_body = ''not found''\<rparr>"

text \<open>A host that answers every request with 200 and never fails.\<close>

definition online_host :: host where
  "online_host = \<lparr>net = (\<lambda>_. Inr (Some ok_response)), open_error = (\<lambda>_. None),
                   put_error = (\<lambda>_ _ _. None)\<rparr>"

text \<open>A host without network.\<close>

definition offline_host :: host where
  "offline_host = \<lparr>net = (\<lambda>_. Inl TypeError), open_error = (\<lambda>_. None),
                    put_error = (\<lambda>_ _ _. None)\<rparr>"

text \<open>A host that answers every request with 404.\<close>

definition missing_host :: host where
  "missing_host = \<lparr>net = (\<lambda>_. Inr (Some not_found)), open_error = (\<lambda>_. None),
                    put_error = (\<lambda>_ _ _. None)\<rparr>"

text \<open>A host whose storage is full: the network answers, every \<open>cache.put\<close> rejects.\<close>

definition full_host :: host where
  "full_host = \<lparr>net = (\<lambda>_. Inr (Some ok_response)), open_error = (\<lambda>_. None),
                 put_error = (\<lambda>_ _ _. Some QuotaExceededError)\<rparr>"

text \<open>A host on which the root is reachable and nothing else is.\<close>

definition flaky_host :: host where
  "flaky_host = \<lparr>net = (\<lambda>rq. if req_url rq = ''./'' then Inr (Some ok_response)
                              else Inl TypeError),
                  open_error = (\<lambda>_. None), put_error = (\<lambda>_ _ _. None)\<rparr>"

definition empty_world :: world where
  "empty_world = \<lparr>stores = [], calls = [], console = [], unhandled = []\<rparr>"

text \<open>The current store holds the page and the asset.\<close>

definition cached_world :: world where
  "cached_world =
     \<lparr>stores = [(CACHE_NAME, [cache_key page_request \<mapsto> old_response,
                                cache_key asset_request \<mapsto> old_response])],
      calls = [], console = [], unhandled = []\<rparr>"

text \<open>A store of the previous version still exists and holds the page and the asset.\<close>

definition stale_world :: world where
  "stale_world =
     \<lparr>stores = [(''dosage-calculator-cache-v1.2'',
                  [cache_key page_request \<mapsto> old_response,
                   cache_key asset_request \<mapsto> old_response]),
                 (CACHE_NAME, Map.empty)],
      calls = [], console = [], unhandled = []\<rparr>"

section \<open>Properties\<close>

subsection \<open>Auxiliary facts\<close>

lemma clone_id [simp]: "clone (r::response) = r"
  by (simp add: clone_def)

lemmas promise_defs = resolve_def reject_def then_p_def catch_p_def void_def detach_def

lemmas host_defs = called_def console_log_def console_warn_def console_error_def fetch_def
  caches_open_def caches_match_def caches_keys_def caches_delete_def cache_put_def
  skipWaiting_def clients_claim_def

lemmas fetch_defs = fetch_handler_def navigate_then_def navigate_fallback_def
  navigate_catch_def asset_then_def asset_network_def

lemmas example_defs = page_request_def asset_request_def post_request_def ok_response_def
  old_response_def not_found_def online_host_def offline_host_def missing_host_def
  full_host_def empty_world_def cached_world_def stale_world_def cache_key_def

lemma lookup_store_Cons:
  "lookup_store m ((a, s) # ss) k = (if m = a then s k else lookup_store m ss k)"
  by (simp add: lookup_store_def)

lemma put_entry_Cons:
  "put_entry n k r ((a, s) # ss) =
     (if a = n then (a, s(k \<mapsto> r)) else (a, s)) # put_entry n k r ss"
  by (simp add: put_entry_def)

lemma lookup_store_put_entry:
  "lookup_store m (put_entry n k r ss) k' =
     (if m = n \<and> k' = k \<and> n \<in> fst ` set ss then Some r else lookup_store m ss k')"
proof (induction ss)
  case Nil
  show ?case by (simp add: put_entry_def)
next
  case (Cons p ss)
  obtain a s where p: "p = (a, s)" by (cases p)
  have "lookup_store m (put_entry n k r ((a, s) # ss)) k' =
      (if m = a then (if a = n then (s(k \<mapsto> r)) k' else s k')
       else lookup_store m (put_entry n k r ss) k')"
    by (simp add: put_entry_Cons lookup_store_Cons)
  also have "\<dots> = (if m = n \<and> k' = k \<and> n \<in> fst ` set ((a, s) # ss) then Some r
       else lookup_store m ((a, s) # ss) k')"
    unfolding Cons.IH by (simp add: lookup_store_Cons)
  finally show ?case by (simp only: p)
qed

lemma lookup_store_append_empty:
  "lookup_store m (ss @ [(n, Map.empty)]) k = lookup_store m ss k"
  by (simp add: lookup_store_def map_add_def split: option.splits)

lemma fst_set_put_entry: "fst ` set (put_entry n k r ss) = fst ` set ss"
  by (induction ss) (auto simp: put_entry_def)

lemma match_all_only:
  "\<forall>p \<in> set ss. snd p k = (if fst p = n then Some c else None) \<Longrightarrow>
     match_all ss k = (if n \<in> fst ` set ss then Some c else None)"
proof (induction ss)
  case Nil
  show ?case by simp
next
  case (Cons p ss)
  obtain a s where p: "p = (a, s)" by (cases p)
  from Cons.prems have hd: "s k = (if a = n then Some c else None)" by (simp add: p)
  from Cons have tl: "match_all ss k = (if n \<in> fst ` set ss then Some c else None)" by simp
  show ?case
  proof (cases "a = n")
    case True
    with hd show ?thesis by (simp add: p)
  next
    case False
    with hd tl show ?thesis by (simp add: p)
  qed
qed

lemma entry_only_in_match: "entry_only_in n k c ss \<Longrightarrow> match_all ss k = Some c"
proof -
  assume a: "entry_only_in n k c ss"
  then have "\<forall>p \<in> set ss. snd p k = (if fst p = n then Some c else None)"
    by (auto simp: entry_only_in_def)
  from match_all_only [OF this] a show ?thesis by (simp add: entry_only_in_def)
qed

lemma asset_miss_fetches:
  assumes "req_method rq = ''GET''" "req_mode rq \<noteq> ''navigate''"
    "match_all (stores w) (cache_key rq) = None"
  shows "Fetch rq \<in> set (new_calls w (snd (fetch_handler h rq w)))"
  using assms
  by (simp add: fetch_defs promise_defs host_defs new_calls_def Let_def
      split: option.splits sum.splits)

subsection \<open>The method guard\<close>

text \<open>
  C7. A request whose method is not GET is not responded to: the handler returns without
  calling \<open>respondWith\<close>, so the browser handles the request itself, and the world is
  left as it was: no host call was made (no lookup, no write, no fetch by the script) and
  every store has the contents it had.
\<close>

theorem non_get_passes_through:
  "req_method rq \<noteq> ''GET'' \<Longrightarrow>
     fetch_handler h rq w = (NotHandled, w) \<and>
     new_calls w (snd (fetch_handler h rq w)) = [] \<and>
     stores (snd (fetch_handler h rq w)) = stores w"
  by (simp add: fetch_handler_def new_calls_def)

theorem non_get_passes_through_witness:
  "req_method post_request \<noteq> ''GET'' \<and>
   fetch_handler online_host post_request cached_world = (NotHandled, cached_world) \<and>
   new_calls cached_world (snd (fetch_handler online_host post_request cached_world)) = [] \<and>
   stores (snd (fetch_handler online_host post_request cached_world)) = stores cached_world"
proof -
  have g: "req_method post_request \<noteq> ''GET''" by (simp add: post_request_def)
  from non_get_passes_through [OF g, of online_host cached_world] g show ?thesis by blast
qed

subsection \<open>Assets: cache first\<close>

text \<open>
  C5. A GET request that is not a navigation and for which the cache lookup finds an
  entry is answered with that entry; the only host call of the handler is the lookup, so
  no network fetch is made, and the stores are unchanged.
\<close>

theorem asset_hit_served_from_cache:
  assumes "req_method rq = ''GET''" and "req_mode rq \<noteq> ''navigate''"
    and "match_all (stores w) (cache_key rq) = Some c"
  shows "fst (fetch_handler h rq w) = RespondWith (Inr (Some c)) \<and>
     new_calls w (snd (fetch_handler h rq w)) = [CachesMatch rq] \<and>
     (\<forall>q. Fetch q \<notin> set (new_calls w (snd (fetch_handler h rq w)))) \<and>
     stores (snd (fetch_handler h rq w)) = stores w"
  using assms by (simp add: fetch_defs promise_defs host_defs new_calls_def)

theorem asset_hit_served_from_cache_witness:
  "req_method asset_request = ''GET'' \<and> req_mode asset_request \<noteq> ''navigate'' \<and>
   match_all (stores cached_world) (cache_key asset_request) = Some old_response \<and>
   fst (fetch_handler online_host asset_request cached_world) = RespondWith (Inr (Some old_response)) \<and>
   new_calls cached_world (snd (fetch_handler online_host asset_request cached_world)) =
     [CachesMatch asset_request]"
proof -
  have 1: "req_method asset_request = ''GET''" by (simp add: asset_request_def)
  have 2: "req_mode asset_request \<noteq> ''navigate''" by (simp add: asset_request_def)
  have 3: "match_all (stores cached_world) (cache_key asset_request) = Some old_response"
    by (simp add: example_defs)
  from asset_hit_served_from_cache [OF 1 2 3, of online_host] 1 2 3 show ?thesis by simp
qed

text \<open>
  C6. A GET request that is not a navigation, has no matching entry, and for which the
  network resolves with a missing or non-200 response (a 404, say) is answered with what
  the network gave; the stores are unchanged, so the request still has no entry, and
  handling the same request again, whatever the host answers then, fetches from the
  network again.
\<close>

theorem asset_miss_non_200_not_cached:
  assumes "req_method rq = ''GET''" and "req_mode rq \<noteq> ''navigate''"
    and "match_all (stores w) (cache_key rq) = None"
    and "net h rq = Inr r"
    and "case r of None \<Rightarrow> True | Some x \<Rightarrow> resp_status x \<noteq> 200"
  shows "fst (fetch_handler h rq w) = RespondWith (Inr r) \<and>
     stores (snd (fetch_handler h rq w)) = stores w \<and>
     match_all (stores (snd (fetch_handler h rq w))) (cache_key rq) = None \<and>
     new_calls w (snd (fetch_handler h rq w)) = [CachesMatch rq, Fetch rq] \<and>
     Fetch rq \<in> set (new_calls (snd (fetch_handler h rq w))
                       (snd (fetch_handler h2 rq (snd (fetch_handler h rq w)))))"
proof -
  have abc: "fetch_handler h rq w = (RespondWith (Inr r), called (Fetch rq) (called (CachesMatch rq) w))"
  proof (cases r)
    case None
    with assms show ?thesis by (simp add: fetch_defs promise_defs host_defs)
  next
    case (Some x)
    with assms have "resp_status x \<noteq> 200" by simp
    with Some assms show ?thesis by (simp add: fetch_defs promise_defs host_defs)
  qed
  have a: "fst (fetch_handler h rq w) = RespondWith (Inr r)"
    by (simp add: abc)
  have b: "stores (snd (fetch_handler h rq w)) = stores w"
    by (simp add: abc called_def)
  have c: "new_calls w (snd (fetch_handler h rq w)) = [CachesMatch rq, Fetch rq]"
    by (simp add: abc called_def new_calls_def)
  have d: "match_all (stores (snd (fetch_handler h rq w))) (cache_key rq) = None"
    using assms(3) b by simp
  from a b c d asset_miss_fetches [OF assms(1) assms(2) d] show ?thesis by simp
qed

theorem asset_miss_non_200_not_cached_witness:
  "req_method asset_request = ''GET'' \<and> req_mode asset_request \<noteq> ''navigate'' \<and>
   match_all (stores empty_world) (cache_key asset_request) = None \<and>
   net missing_host asset_request = Inr (Some not_found) \<and> resp_status not_found \<noteq> 200 \<and>
   fst (fetch_handler missing_host asset_request empty_world) = RespondWith (Inr (Some not_found)) \<and>
   stores (snd (fetch_handler missing_host asset_request empty_world)) = stores empty_world"
proof -
  have 1: "req_method asset_request = ''GET''" by (simp add: asset_request_def)
  have 2: "req_mode asset_request \<noteq> ''navigate''" by (simp add: asset_request_def)
  have 3: "match_all (stores empty_world) (cache_key asset_request) = None"
    by (simp add: example_defs)
  have 4: "net missing_host asset_request = Inr (Some not_found)"
    by (simp add: missing_host_def)
  have 5: "case Some not_found of None \<Rightarrow> True | Some x \<Rightarrow> resp_status x \<noteq> 200"
    by (simp add: not_found_def)
  from asset_miss_non_200_not_cached [OF 1 2 3 4 5] 1 2 3 4 5 show ?thesis by simp
qed

subsection \<open>Navigation: network first\<close>

text \<open>
  C4. A GET navigation request whose network fetch rejects is answered from the cache
  lookup: with the matching entry, unchanged, when there is one, and with no response
  (\<open>undefined\<close>) when there is none. The promise given to \<open>respondWith\<close> resolves in
  both cases, no rejection is left unhandled, and the stores are unchanged. When the
  current-version store is the only store, the lookup is the lookup in that store.
\<close>

theorem navigate_offline_falls_back_to_cache:
  assumes "req_method rq = ''GET''" and "req_mode rq = ''navigate''"
    and "net h rq = Inl e"
  shows "(\<forall>c. match_all (stores w) (cache_key rq) = Some c \<longrightarrow>
            fst (fetch_handler h rq w) = RespondWith (Inr (Some c))) \<and>
     (match_all (stores w) (cache_key rq) = None \<longrightarrow>
            fst (fetch_handler h rq w) = RespondWith (Inr None)) \<and>
     (\<forall>s. stores w = [(CACHE_NAME, s)] \<longrightarrow>
            fst (fetch_handler h rq w) = RespondWith (Inr (s (cache_key rq)))) \<and>
     unhandled (snd (fetch_handler h rq w)) = unhandled w \<and>
     stores (snd (fetch_handler h rq w)) = stores w"
proof -
  have a: "fst (fetch_handler h rq w) = RespondWith (Inr (match_all (stores w) (cache_key rq)))"
    using assms by (simp add: fetch_defs promise_defs host_defs split: option.splits)
  have b: "unhandled (snd (fetch_handler h rq w)) = unhandled w"
    using assms by (simp add: fetch_defs promise_defs host_defs split: option.splits)
  have c: "stores (snd (fetch_handler h rq w)) = stores w"
    using assms by (simp add: fetch_defs promise_defs host_defs split: option.splits)
  have d: "stores w = [(CACHE_NAME, s)] \<Longrightarrow> match_all (stores w) (cache_key rq) = s (cache_key rq)" for s
    by (simp split: option.splits)
  from a b c d show ?thesis by simp
qed

theorem navigate_offline_falls_back_to_cache_witness:
  "req_method page_request = ''GET'' \<and> req_mode page_request = ''navigate'' \<and>
   net offline_host page_request = Inl TypeError \<and>
   match_all (stores cached_world) (cache_key page_request) = Some old_response \<and>
   fst ` set (stores cached_world) = {CACHE_NAME} \<and>
   fst (fetch_handler offline_host page_request cached_world) = RespondWith (Inr (Some old_response)) \<and>
   match_all (stores empty_world) (cache_key page_request) = None \<and>
   fst (fetch_handler offline_host page_request empty_world) = RespondWith (Inr None)"
proof -
  have 1: "req_method page_request = ''GET''" by (simp add: page_request_def)
  have 2: "req_mode page_request = ''navigate''" by (simp add: page_request_def)
  have 3: "net offline_host page_request = Inl TypeError" by (simp add: offline_host_def)
  have 4: "match_all (stores cached_world) (cache_key page_request) = Some old_response"
    by (simp add: example_defs)
  have 5: "match_all (stores empty_world) (cache_key page_request) = None"
    by (simp add: example_defs)
  have 6: "fst ` set (stores cached_world) = {CACHE_NAME}" by (simp add: cached_world_def)
  from navigate_offline_falls_back_to_cache [OF 1 2 3, of cached_world]
    navigate_offline_falls_back_to_cache [OF 1 2 3, of empty_world] 1 2 3 4 5 6
  show ?thesis by simp
qed

text \<open>
  C3, as stated, fails: the write that follows a successful navigation is detached and
  best effort. On a host whose storage is full the page gets the network response, and
  the current-version store has no entry for the request afterwards.
\<close>

theorem navigate_success_store_counterexample:
  "req_method page_request = ''GET'' \<and> req_mode page_request = ''navigate'' \<and>
   net full_host page_request = Inr (Some ok_response) \<and>
   resp_status ok_response = 200 \<and> resp_type ok_response = ''basic'' \<and>
   fst (fetch_handler full_host page_request empty_world) = RespondWith (Inr (Some ok_response)) \<and>
   lookup_store CACHE_NAME (stores (snd (fetch_handler full_host page_request empty_world)))
     (cache_key page_request) = None"
  by (simp add: fetch_defs promise_defs host_defs example_defs lookup_store_def)

text \<open>
  C3, amended. A GET navigation request for which the network resolves with a response
  of status 200 and type \<open>basic\<close> is answered with that response; and when opening
  the current-version store and the \<open>put\<close> both succeed, that store afterwards holds
  the response under the request.
\<close>

theorem navigate_success_returns_and_stores:
  assumes "req_method rq = ''GET''" and "req_mode rq = ''navigate''"
    and "net h rq = Inr (Some r)" and "resp_status r = 200" and "resp_type r = ''basic''"
  shows "fst (fetch_handler h rq w) = RespondWith (Inr (Some r)) \<and>
     (open_error h CACHE_NAME = None \<and> put_error h CACHE_NAME rq r = None \<longrightarrow>
        lookup_store CACHE_NAME (stores (snd (fetch_handler h rq w))) (cache_key rq) = Some r)"
  using assms
  by (simp add: fetch_defs promise_defs host_defs Let_def lookup_store_put_entry
      split: option.splits)

theorem navigate_success_returns_and_stores_witness:
  "req_method page_request = ''GET'' \<and> req_mode page_request = ''navigate'' \<and>
   net online_host page_request = Inr (Some ok_response) \<and>
   resp_status ok_response = 200 \<and> resp_type ok_response = ''basic'' \<and>
   open_error online_host CACHE_NAME = None \<and>
   put_error online_host CACHE_NAME page_request ok_response = None \<and>
   fst (fetch_handler online_host page_request empty_world) = RespondWith (Inr (Some ok_response)) \<and>
   lookup_store CACHE_NAME (stores (snd (fetch_handler online_host page_request empty_world)))
     (cache_key page_request) = Some ok_response"
proof -
  have 1: "req_method page_request = ''GET''" by (simp add: page_request_def)
  have 2: "req_mode page_request = ''navigate''" by (simp add: page_request_def)
  have 3: "net online_host page_request = Inr (Some ok_response)" by (simp add: online_host_def)
  have 4: "resp_status ok_response = 200" by (simp add: ok_response_def)
  have 5: "resp_type ok_response = ''basic''" by (simp add: ok_response_def)
  have 6: "open_error online_host CACHE_NAME = None" by (simp add: online_host_def)
  have 7: "put_error online_host CACHE_NAME page_request ok_response = None"
    by (simp add: online_host_def)
  from navigate_success_returns_and_stores [OF 1 2 3 4 5, of empty_world] 1 2 3 4 5 6 7
  show ?thesis by blast
qed

subsection \<open>What the fetch handler writes\<close>

lemma fetch_handler_puts:
  "CachePut n q r \<in> set (new_calls w (snd (fetch_handler h rq w))) \<Longrightarrow>
     n = CACHE_NAME \<and> q = rq \<and> req_method q = ''GET'' \<and> resp_status r = 200"
  by (simp add: fetch_defs promise_defs host_defs Let_def new_calls_def
      split: option.splits sum.splits if_splits)

lemma fetch_handler_opens:
  "CachesOpen n \<in> set (new_calls w (snd (fetch_handler h rq w))) \<Longrightarrow> n = CACHE_NAME"
  by (simp add: fetch_defs promise_defs host_defs Let_def new_calls_def
      split: option.splits sum.splits if_splits)

lemma navigate_success_lookup:
  assumes "req_method rq = ''GET''" and "req_mode rq = ''navigate''"
    and "net h rq = Inr (Some r)" and "resp_status r = 200" and "resp_type r = ''basic''"
  shows "lookup_store n (stores (snd (fetch_handler h rq w))) k =
     (if open_error h CACHE_NAME = None \<and> put_error h CACHE_NAME rq r = None \<and>
         n = CACHE_NAME \<and> k = cache_key rq
      then Some r else lookup_store n (stores w) k)"
  using assms
  by (simp add: fetch_defs promise_defs host_defs Let_def lookup_store_put_entry
      lookup_store_append_empty split: option.splits)

lemma asset_success_lookup:
  assumes "req_method rq = ''GET''" and "req_mode rq \<noteq> ''navigate''"
    and "match_all (stores w) (cache_key rq) = None"
    and "net h rq = Inr (Some r)" and "resp_status r = 200"
  shows "lookup_store n (stores (snd (fetch_handler h rq w))) k =
     (if open_error h CACHE_NAME = None \<and> put_error h CACHE_NAME rq r = None \<and>
         n = CACHE_NAME \<and> k = cache_key rq
      then Some r else lookup_store n (stores w) k)"
  using assms
  by (simp add: fetch_defs promise_defs host_defs Let_def lookup_store_put_entry
      lookup_store_append_empty split: option.splits)

lemma fetch_handler_stores_cases:
  "stores (snd (fetch_handler h rq w)) = stores w \<or>
   (req_method rq = ''GET'' \<and>
    (\<exists>r. net h rq = Inr (Some r) \<and> resp_status r = 200 \<and>
         (\<forall>n k. lookup_store n (stores (snd (fetch_handler h rq w))) k =
            (if open_error h CACHE_NAME = None \<and> put_error h CACHE_NAME rq r = None \<and>
                n = CACHE_NAME \<and> k = cache_key rq
             then Some r else lookup_store n (stores w) k))))"
proof (cases "req_method rq = ''GET''")
  case False
  then show ?thesis by (simp add: fetch_handler_def)
next
  case get: True
  show ?thesis
  proof (cases "net h rq")
    case (Inl e)
    with get have "stores (snd (fetch_handler h rq w)) = stores w"
      by (simp add: fetch_defs promise_defs host_defs split: option.splits)
    then show ?thesis by simp
  next
    case (Inr ro)
    show ?thesis
    proof (cases ro)
      case None
      with get Inr have "stores (snd (fetch_handler h rq w)) = stores w"
        by (simp add: fetch_defs promise_defs host_defs split: option.splits)
      then show ?thesis by simp
    next
      case (Some r)
      show ?thesis
      proof (cases "resp_status r = 200")
        case False
        with get Inr Some have "stores (snd (fetch_handler h rq w)) = stores w"
          by (simp add: fetch_defs promise_defs host_defs split: option.splits)
        then show ?thesis by simp
      next
        case ok: True
        show ?thesis
        proof (cases "req_mode rq = ''navigate''")
          case nav: True
          show ?thesis
          proof (cases "resp_type r = ''basic''")
            case True
            from Inr Some have net: "net h rq = Inr (Some r)" by simp
            from navigate_success_lookup [where w = w, OF get nav net ok True] get net ok
            show ?thesis by simp
          next
            case False
            with get Inr Some nav have "stores (snd (fetch_handler h rq w)) = stores w"
              by (simp add: fetch_defs promise_defs host_defs split: option.splits)
            then show ?thesis by simp
          qed
        next
          case asset: False
          show ?thesis
          proof (cases "match_all (stores w) (cache_key rq)")
            case None
            from Inr Some have net: "net h rq = Inr (Some r)" by simp
            from asset_success_lookup [OF get asset None net ok] get net ok
            show ?thesis by simp
          next
            case hit: (Some c)
            with get asset have "stores (snd (fetch_handler h rq w)) = stores w"
              by (simp add: fetch_defs promise_defs host_defs)
            then show ?thesis by simp
          qed
        qed
      qed
    qed
  qed
qed

lemma fetch_handler_lookup:
  assumes "lookup_store n (stores (snd (fetch_handler h rq w))) k \<noteq> lookup_store n (stores w) k"
  shows "n = CACHE_NAME \<and> k = cache_key rq \<and> req_method rq = ''GET'' \<and>
     (\<exists>r. lookup_store n (stores (snd (fetch_handler h rq w))) k = Some r \<and> resp_status r = 200)"
proof -
  from assms have "stores (snd (fetch_handler h rq w)) \<noteq> stores w" by auto
  with fetch_handler_stores_cases [of h rq w] obtain r where
    get: "req_method rq = ''GET''" and ok: "resp_status r = 200" and
    eq: "\<And>n k. lookup_store n (stores (snd (fetch_handler h rq w))) k =
            (if open_error h CACHE_NAME = None \<and> put_error h CACHE_NAME rq r = None \<and>
                n = CACHE_NAME \<and> k = cache_key rq
             then Some r else lookup_store n (stores w) k)"
    by blast
  from assms eq [of n k] have c: "open_error h CACHE_NAME = None \<and>
      put_error h CACHE_NAME rq r = None \<and> n = CACHE_NAME \<and> k = cache_key rq"
    by (simp split: if_splits)
  with eq [of n k] get ok show ?thesis by simp
qed

text \<open>
  C9. Whatever the request, the host and the world: every \<open>cache.put\<close> the fetch handler
  calls is for the request itself, whose method is GET, with a response of status 200;
  and every entry of a store that differs after the handler from what it was before
  is an entry under that GET request holding a response of status 200.
\<close>

theorem fetch_persists_only_get_200:
  "(\<forall>n q r. CachePut n q r \<in> set (new_calls w (snd (fetch_handler h rq w))) \<longrightarrow>
       q = rq \<and> req_method q = ''GET'' \<and> resp_status r = 200) \<and>
   (\<forall>n k. lookup_store n (stores (snd (fetch_handler h rq w))) k \<noteq> lookup_store n (stores w) k \<longrightarrow>
       k = cache_key rq \<and> req_method rq = ''GET'' \<and>
       (\<exists>r. lookup_store n (stores (snd (fetch_handler h rq w))) k = Some r \<and>
            resp_status r = 200))"
  using fetch_handler_puts [of _ _ _ w h rq] fetch_handler_lookup [of _ h rq w] by blast

theorem fetch_persists_only_get_200_witness:
  "CachePut CACHE_NAME asset_request ok_response
     \<in> set (new_calls empty_world (snd (fetch_handler online_host asset_request empty_world))) \<and>
   req_method asset_request = ''GET'' \<and> resp_status ok_response = 200 \<and>
   lookup_store CACHE_NAME (stores (snd (fetch_handler online_host asset_request empty_world)))
     (cache_key asset_request) \<noteq> lookup_store CACHE_NAME (stores empty_world) (cache_key asset_request)"
proof -
  have 1: "CachePut CACHE_NAME asset_request ok_response
     \<in> set (new_calls empty_world (snd (fetch_handler online_host asset_request empty_world)))"
    by (simp add: fetch_defs promise_defs host_defs example_defs new_calls_def Let_def)
  have 2: "lookup_store CACHE_NAME (stores (snd (fetch_handler online_host asset_request empty_world)))
     (cache_key asset_request) \<noteq> lookup_store CACHE_NAME (stores empty_world) (cache_key asset_request)"
    by (simp add: fetch_defs promise_defs host_defs example_defs lookup_store_def Let_def
        put_entry_def)
  from fetch_persists_only_get_200 [of empty_world online_host asset_request] 1 2
  show ?thesis by blast
qed

subsection \<open>Lookups span all stores, writes go to the current one\<close>

lemma lookup_path_returns_match:
  assumes "req_method rq = ''GET''"
    and "match_all (stores w) (cache_key rq) = Some c"
    and "req_mode rq \<noteq> ''navigate'' \<or> (\<exists>e. net h rq = Inl e) \<or> net h rq = Inr None \<or>
         (\<exists>x. net h rq = Inr (Some x) \<and> (resp_status x \<noteq> 200 \<or> resp_type x \<noteq> ''basic''))"
  shows "fst (fetch_handler h rq w) = RespondWith (Inr (Some c))"
proof (cases "req_mode rq = ''navigate''")
  case False
  with assms show ?thesis by (simp add: fetch_defs promise_defs host_defs)
next
  case True
  with assms(3) consider (rej) e where "net h rq = Inl e" | (none) "net h rq = Inr None"
    | (bad) x where "net h rq = Inr (Some x)" "resp_status x \<noteq> 200 \<or> resp_type x \<noteq> ''basic''"
    by blast
  then show ?thesis
  proof cases
    case rej
    with assms(1,2) True show ?thesis by (simp add: fetch_defs promise_defs host_defs)
  next
    case none
    with assms(1,2) True show ?thesis by (simp add: fetch_defs promise_defs host_defs)
  next
    case bad
    with assms(1,2) True show ?thesis by (auto simp add: fetch_defs promise_defs host_defs)
  qed
qed

lemma entry_only_in_not_current:
  assumes "entry_only_in n k c ss" and "n \<noteq> m"
  shows "lookup_store m ss k = None"
proof (cases "map_of ss m")
  case None
  then show ?thesis by (simp add: lookup_store_def)
next
  case (Some s)
  then have "(m, s) \<in> set ss" by (rule map_of_SomeD)
  with assms have "s k = None" by (auto simp: entry_only_in_def)
  with Some show ?thesis by (simp add: lookup_store_def)
qed

text \<open>
  C10. Every store the fetch handler opens and every \<open>cache.put\<close> it calls is on the
  current-version store, and the entries of every other store are left as they were;
  the lookups go through \<open>caches.match\<close>, which searches every store. Hence a GET request
  whose only entry is in a store of another name (a stale version that activation has not
  deleted), and so has no entry in the current-version store, is answered with that
  stale entry wherever the handler looks up: for an asset, and for a navigation whose
  network fetch rejects or resolves with a missing, non-200 or non-basic response.
\<close>

theorem lookups_all_stores_writes_current_store:
  "(\<forall>n. CachesOpen n \<in> set (new_calls w (snd (fetch_handler h rq w))) \<longrightarrow> n = CACHE_NAME) \<and>
   (\<forall>n q r. CachePut n q r \<in> set (new_calls w (snd (fetch_handler h rq w))) \<longrightarrow> n = CACHE_NAME) \<and>
   (\<forall>n k. n \<noteq> CACHE_NAME \<longrightarrow>
       lookup_store n (stores (snd (fetch_handler h rq w))) k = lookup_store n (stores w) k) \<and>
   (\<forall>n c. req_method rq = ''GET'' \<and> n \<noteq> CACHE_NAME \<and>
       entry_only_in n (cache_key rq) c (stores w) \<and>
       (req_mode rq \<noteq> ''navigate'' \<or> (\<exists>e. net h rq = Inl e) \<or> net h rq = Inr None \<or>
        (\<exists>x. net h rq = Inr (Some x) \<and> (resp_status x \<noteq> 200 \<or> resp_type x \<noteq> ''basic''))) \<longrightarrow>
       lookup_store CACHE_NAME (stores w) (cache_key rq) = None \<and>
       fst (fetch_handler h rq w) = RespondWith (Inr (Some c)))"
proof (intro conjI allI impI)
  fix n
  assume "CachesOpen n \<in> set (new_calls w (snd (fetch_handler h rq w)))"
  then show "n = CACHE_NAME" by (rule fetch_handler_opens)
next
  fix n q r
  assume "CachePut n q r \<in> set (new_calls w (snd (fetch_handler h rq w)))"
  from fetch_handler_puts [OF this] show "n = CACHE_NAME" by simp
next
  fix n k
  assume "n \<noteq> CACHE_NAME"
  with fetch_handler_lookup [of n h rq w k]
  show "lookup_store n (stores (snd (fetch_handler h rq w))) k = lookup_store n (stores w) k"
    by blast
next
  fix n c
  assume a: "req_method rq = ''GET'' \<and> n \<noteq> CACHE_NAME \<and>
       entry_only_in n (cache_key rq) c (stores w) \<and>
       (req_mode rq \<noteq> ''navigate'' \<or> (\<exists>e. net h rq = Inl e) \<or> net h rq = Inr None \<or>
        (\<exists>x. net h rq = Inr (Some x) \<and> (resp_status x \<noteq> 200 \<or> resp_type x \<noteq> ''basic'')))"
  then have only: "entry_only_in n (cache_key rq) c (stores w)" and ne: "n \<noteq> CACHE_NAME"
    by simp_all
  from entry_only_in_not_current [OF only ne]
  show "lookup_store CACHE_NAME (stores w) (cache_key rq) = None" .
next
  fix n c
  assume a: "req_method rq = ''GET'' \<and> n \<noteq> CACHE_NAME \<and>
       entry_only_in n (cache_key rq) c (stores w) \<and>
       (req_mode rq \<noteq> ''navigate'' \<or> (\<exists>e. net h rq = Inl e) \<or> net h rq = Inr None \<or>
        (\<exists>x. net h rq = Inr (Some x) \<and> (resp_status x \<noteq> 200 \<or> resp_type x \<noteq> ''basic'')))"
  then have get: "req_method rq = ''GET''"
    and only: "entry_only_in n (cache_key rq) c (stores w)"
    and path: "req_mode rq \<noteq> ''navigate'' \<or> (\<exists>e. net h rq = Inl e) \<or> net h rq = Inr None \<or>
        (\<exists>x. net h rq = Inr (Some x) \<and> (resp_status x \<noteq> 200 \<or> resp_type x \<noteq> ''basic''))"
    by simp_all
  from lookup_path_returns_match [OF get entry_only_in_match [OF only] path]
  show "fst (fetch_handler h rq w) = RespondWith (Inr (Some c))" .
qed

theorem lookups_all_stores_writes_current_store_witness:
  "req_method asset_request = ''GET'' \<and> ''dosage-calculator-cache-v1.2'' \<noteq> CACHE_NAME \<and>
   entry_only_in ''dosage-calculator-cache-v1.2'' (cache_key asset_request) old_response
     (stores stale_world) \<and>
   req_mode asset_request \<noteq> ''navigate'' \<and>
   lookup_store CACHE_NAME (stores stale_world) (cache_key asset_request) = None \<and>
   fst (fetch_handler online_host asset_request stale_world) = RespondWith (Inr (Some old_response)) \<and>
   req_method page_request = ''GET'' \<and>
   entry_only_in ''dosage-calculator-cache-v1.2'' (cache_key page_request) old_response
     (stores stale_world) \<and>
   net offline_host page_request = Inl TypeError \<and>
   fst (fetch_handler offline_host page_request stale_world) = RespondWith (Inr (Some old_response))"
proof -
  have 1: "req_method asset_request = ''GET''" by (simp add: asset_request_def)
  have 2: "''dosage-calculator-cache-v1.2'' \<noteq> CACHE_NAME" by (simp add: CACHE_NAME_def)
  have 3: "entry_only_in ''dosage-calculator-cache-v1.2'' (cache_key asset_request) old_response
     (stores stale_world)"
    by (simp add: entry_only_in_def example_defs CACHE_NAME_def)
  have 4: "req_mode asset_request \<noteq> ''navigate''" by (simp add: asset_request_def)
  have 5: "req_method page_request = ''GET''" by (simp add: page_request_def)
  have 6: "entry_only_in ''dosage-calculator-cache-v1.2'' (cache_key page_request) old_response
     (stores stale_world)"
    by (simp add: entry_only_in_def example_defs CACHE_NAME_def)
  have 7: "net offline_host page_request = Inl TypeError" by (simp add: offline_host_def)
  from lookups_all_stores_writes_current_store [of stale_world online_host asset_request]
  have "req_method asset_request = ''GET'' \<and> ''dosage-calculator-cache-v1.2'' \<noteq> CACHE_NAME \<and>
       entry_only_in ''dosage-calculator-cache-v1.2'' (cache_key asset_request) old_response
         (stores stale_world) \<and>
       (req_mode asset_request \<noteq> ''navigate'' \<or> (\<exists>e. net online_host asset_request = Inl e) \<or>
        net online_host asset_request = Inr None \<or>
        (\<exists>x. net online_host asset_request = Inr (Some x) \<and>
             (resp_status x \<noteq> 200 \<or> resp_type x \<noteq> ''basic''))) \<longrightarrow>
       lookup_store CACHE_NAME (stores stale_world) (cache_key asset_request) = None \<and>
       fst (fetch_handler online_host asset_request stale_world) = RespondWith (Inr (Some old_response))"
    by (elim conjE allE)
  with 1 2 3 4 have A: "lookup_store CACHE_NAME (stores stale_world) (cache_key asset_request) = None \<and>
       fst (fetch_handler online_host asset_request stale_world) = RespondWith (Inr (Some old_response))"
    by simp
  from lookups_all_stores_writes_current_store [of stale_world offline_host page_request]
  have "req_method page_request = ''GET'' \<and> ''dosage-calculator-cache-v1.2'' \<noteq> CACHE_NAME \<and>
       entry_only_in ''dosage-calculator-cache-v1.2'' (cache_key page_request) old_response
         (stores stale_world) \<and>
       (req_mode page_request \<noteq> ''navigate'' \<or> (\<exists>e. net offline_host page_request = Inl e) \<or>
        net offline_host page_request = Inr None \<or>
        (\<exists>x. net offline_host page_request = Inr (Some x) \<and>
             (resp_status x \<noteq> 200 \<or> resp_type x \<noteq> ''basic''))) \<longrightarrow>
       lookup_store CACHE_NAME (stores stale_world) (cache_key page_request) = None \<and>
       fst (fetch_handler offline_host page_request stale_world) = RespondWith (Inr (Some old_response))"
    by (elim conjE allE)
  with 2 5 6 7 have B: "fst (fetch_handler offline_host page_request stale_world) =
       RespondWith (Inr (Some old_response))"
    by simp
  from A B 1 2 3 4 5 6 7 show ?thesis by simp
qed

subsection \<open>The promise given to \<open>respondWith\<close> resolves\<close>

lemma fetch_handler_resolves:
  "fst (fetch_handler h rq w) \<noteq> RespondWith (Inl e)"
  by (simp add: fetch_defs promise_defs host_defs Let_def
      split: option.splits sum.splits if_splits)

subsection \<open>Promise.all\<close>

lemma snd_promise_all_Cons:
  "snd (promise_all (p # ps) w) = snd (promise_all ps (snd (p w)))"
  by (simp split: prod.splits)

lemma fst_promise_all_Cons:
  "fst (promise_all (p # ps) w) =
     (case fst (p w) of
        Inl e \<Rightarrow> Inl e
      | Inr v \<Rightarrow> (case fst (promise_all ps (snd (p w))) of
                   Inl e \<Rightarrow> Inl e
                 | Inr vs \<Rightarrow> Inr (v # vs)))"
  by (cases "p w"; cases "promise_all ps (snd (p w))") (simp split: sum.splits)

lemma promise_all_resolves:
  "(\<And>p w. p \<in> set ps \<Longrightarrow> \<exists>v. fst (p w) = Inr v) \<Longrightarrow> \<exists>vs. fst (promise_all ps w) = Inr vs"
proof (induction ps arbitrary: w)
  case Nil
  show ?case by simp
next
  case (Cons p ps)
  from Cons.prems [of p w] obtain v where v: "fst (p w) = Inr v" by auto
  from Cons.IH [of "snd (p w)"] Cons.prems
  obtain vs where vs: "fst (promise_all ps (snd (p w))) = Inr vs" by auto
  show ?case by (simp only: fst_promise_all_Cons v vs) simp
qed

lemma void_resolves: "fst (p w) = Inr v \<Longrightarrow> void p w = (Inr (), snd (p w))"
  by (cases "p w") (simp add: void_def then_p_def resolve_def)

subsection \<open>Activation deletes the other stores\<close>

lemma delete_old_fst: "\<exists>v. fst (delete_old [CACHE_NAME] a w) = Inr v"
  by (simp add: delete_old_def caches_delete_def resolve_def)

lemma delete_old_stores:
  "stores (snd (delete_old [CACHE_NAME] a w)) =
     filter (\<lambda>p. fst p = CACHE_NAME \<or> fst p \<noteq> a) (stores w)"
proof (cases "a = CACHE_NAME")
  case True
  then show ?thesis
    by (simp add: delete_old_def indexOf_def resolve_def)
next
  case False
  then have "indexOf [CACHE_NAME] a = - 1" by (auto simp: indexOf_def)
  then have "stores (snd (delete_old [CACHE_NAME] a w)) = filter (\<lambda>p. fst p \<noteq> a) (stores w)"
    by (simp add: delete_old_def caches_delete_def called_def console_log_def)
  also have "\<dots> = filter (\<lambda>p. fst p = CACHE_NAME \<or> fst p \<noteq> a) (stores w)"
    using False by (intro filter_cong) auto
  finally show ?thesis .
qed

lemma delete_old_unhandled: "unhandled (snd (delete_old [CACHE_NAME] a w)) = unhandled w"
  by (simp add: delete_old_def caches_delete_def called_def console_log_def resolve_def)

lemma delete_all_stores:
  "stores (snd (promise_all (map (delete_old [CACHE_NAME]) names) w)) =
     filter (\<lambda>p. fst p = CACHE_NAME \<or> fst p \<notin> set names) (stores w)"
proof (induction names arbitrary: w)
  case Nil
  show ?case by simp
next
  case (Cons a names)
  have "stores (snd (promise_all (map (delete_old [CACHE_NAME]) (a # names)) w)) =
      filter (\<lambda>p. fst p = CACHE_NAME \<or> fst p \<notin> set names)
        (filter (\<lambda>p. fst p = CACHE_NAME \<or> fst p \<noteq> a) (stores w))"
    by (simp only: list.map snd_promise_all_Cons Cons.IH delete_old_stores)
  also have "\<dots> = filter (\<lambda>p. fst p = CACHE_NAME \<or> fst p \<notin> set (a # names)) (stores w)"
    by (simp only: filter_filter) (intro filter_cong, auto)
  finally show ?case .
qed

lemma delete_all_unhandled:
  "unhandled (snd (promise_all (map (delete_old [CACHE_NAME]) names) w)) = unhandled w"
proof (induction names arbitrary: w)
  case Nil
  show ?case by simp
next
  case (Cons a names)
  show ?case by (simp only: list.map snd_promise_all_Cons Cons.IH delete_old_unhandled)
qed

lemma delete_all_resolves:
  "\<exists>vs. fst (promise_all (map (delete_old [CACHE_NAME]) names) w) = Inr vs"
  by (rule promise_all_resolves) (auto simp: delete_old_fst)

lemma stores_called: "stores (called c w) = stores w"
  by (simp add: called_def)

lemma stores_console_log: "stores (console_log a w) = stores w"
  by (simp add: console_log_def)

lemma unhandled_called: "unhandled (called c w) = unhandled w"
  by (simp add: called_def)

lemma unhandled_console_log: "unhandled (console_log a w) = unhandled w"
  by (simp add: console_log_def)

lemma activate_handler_eq:
  "activate_handler h w =
     (Inr (), clients_claim (snd (promise_all (map (delete_old [CACHE_NAME]) (map fst (stores w)))
        (called CachesKeys (console_log [Str ''[ServiceWorker] Activate''] w)))))"
proof -
  let ?w1 = "called CachesKeys (console_log [Str ''[ServiceWorker] Activate''] w)"
  have names: "map fst (stores (console_log [Str ''[ServiceWorker] Activate''] w)) = map fst (stores w)"
    by (simp add: console_log_def)
  from delete_all_resolves obtain vs where
    "fst (promise_all (map (delete_old [CACHE_NAME]) (map fst (stores w))) ?w1) = Inr vs"
    by blast
  then have "void (promise_all (map (delete_old [CACHE_NAME]) (map fst (stores w)))) ?w1 =
      (Inr (), snd (promise_all (map (delete_old [CACHE_NAME]) (map fst (stores w))) ?w1))"
    by (rule void_resolves)
  then show ?thesis
    by (simp add: activate_handler_def Let_def then_p_def caches_keys_def names
        del: map_map)
qed

lemma activate_handler_stores:
  "stores (snd (activate_handler h w)) = filter (\<lambda>p. fst p = CACHE_NAME) (stores w)"
proof -
  have "stores (snd (activate_handler h w)) =
      filter (\<lambda>p. fst p = CACHE_NAME \<or> fst p \<notin> set (map fst (stores w))) (stores w)"
    by (simp only: activate_handler_eq snd_conv clients_claim_def stores_called
        delete_all_stores stores_console_log)
  also have "\<dots> = filter (\<lambda>p. fst p = CACHE_NAME) (stores w)"
    by (intro filter_cong) auto
  finally show ?thesis .
qed

lemma activate_handler_unhandled:
  "unhandled (snd (activate_handler h w)) = unhandled w"
  by (simp only: activate_handler_eq snd_conv clients_claim_def unhandled_called
      delete_all_unhandled unhandled_console_log)

lemma lookup_store_filter_name:
  "lookup_store n (filter (\<lambda>p. fst p = m) ss) k = (if n = m then lookup_store n ss k else None)"
  by (induction ss) (auto simp: lookup_store_def)

text \<open>
  C2. Whatever stores exist when the activate handler runs, the promise given to
  \<open>waitUntil\<close> resolves, and the stores that exist afterwards are exactly those that
  were named by the version constant: every store of another name is gone, and the
  current-version store, if it existed, has kept its entries.
\<close>

theorem activate_keeps_only_current_store:
  "fst (activate_handler h w) = Inr () \<and>
   stores (snd (activate_handler h w)) = filter (\<lambda>p. fst p = CACHE_NAME) (stores w) \<and>
   fst ` set (stores (snd (activate_handler h w))) = fst ` set (stores w) \<inter> {CACHE_NAME} \<and>
   lookup_store CACHE_NAME (stores (snd (activate_handler h w))) =
     lookup_store CACHE_NAME (stores w)"
proof -
  have a: "fst (activate_handler h w) = Inr ()" by (simp add: activate_handler_eq)
  have b: "fst ` set (filter (\<lambda>p. fst p = CACHE_NAME) (stores w)) =
      fst ` set (stores w) \<inter> {CACHE_NAME}"
    by force
  have c: "lookup_store CACHE_NAME (filter (\<lambda>p. fst p = CACHE_NAME) (stores w)) =
      lookup_store CACHE_NAME (stores w)"
    by (rule ext) (simp add: lookup_store_filter_name)
  from a b c show ?thesis by (simp only: activate_handler_stores)
qed

theorem activate_keeps_only_current_store_witness:
  "fst (activate_handler online_host stale_world) = Inr () \<and>
   fst ` set (stores stale_world) = {''dosage-calculator-cache-v1.2'', CACHE_NAME} \<and>
   fst ` set (stores (snd (activate_handler online_host stale_world))) = {CACHE_NAME}"
proof -
  have 1: "fst ` set (stores stale_world) = {''dosage-calculator-cache-v1.2'', CACHE_NAME}"
    by (simp add: stale_world_def)
  have 2: "''dosage-calculator-cache-v1.2'' \<noteq> CACHE_NAME" by (simp add: CACHE_NAME_def)
  from activate_keeps_only_current_store [of online_host stale_world] 1 2
  show ?thesis by auto
qed

subsection \<open>Install pre-caches, best effort\<close>

lemma cache_add_fst:
  "fst (cache_add h n rq w) = (case add_result h n rq of Inl e \<Rightarrow> Inl e | Inr r \<Rightarrow> Inr ())"
  by (simp add: cache_add_def add_result_def then_p_def fetch_def reject_def cache_put_def
      split: sum.splits option.splits)

lemma cache_add_stores:
  "stores (snd (cache_add h n rq w)) =
     (case add_result h n rq of
        Inl e \<Rightarrow> stores w
      | Inr r \<Rightarrow> put_entry n (cache_key rq) r (stores w))"
  by (simp add: cache_add_def add_result_def then_p_def fetch_def reject_def cache_put_def
      called_def split: sum.splits option.splits)

lemma cache_add_unhandled: "unhandled (snd (cache_add h n rq w)) = unhandled w"
  by (simp add: cache_add_def then_p_def fetch_def reject_def cache_put_def
      called_def split: sum.splits option.splits)

lemma cache_add_console: "console (snd (cache_add h n rq w)) = console w"
  by (simp add: cache_add_def then_p_def fetch_def reject_def cache_put_def
      called_def split: sum.splits option.splits)

lemma cache_add_calls: "\<exists>cs. calls (snd (cache_add h n rq w)) = calls w @ Fetch rq # cs"
  by (simp add: cache_add_def then_p_def fetch_def reject_def cache_put_def
      called_def split: sum.splits option.splits)

lemma precache_one_fst: "fst (precache_one h n u w) = Inr ()"
proof (cases "cache_add h n (new_Request u ''reload'') w")
  case (Pair out w1)
  then show ?thesis
    by (cases out) (simp_all add: precache_one_def catch_p_def resolve_def)
qed

lemma precache_one_snd:
  "snd (precache_one h n u w) =
     (case fst (cache_add h n (new_Request u ''reload'') w) of
        Inl e \<Rightarrow> console_warn [Str (''[ServiceWorker] Failed to cache '' @ u @ '':''), Err e]
                   (snd (cache_add h n (new_Request u ''reload'') w))
      | Inr v \<Rightarrow> snd (cache_add h n (new_Request u ''reload'') w))"
proof (cases "cache_add h n (new_Request u ''reload'') w")
  case (Pair out w1)
  then show ?thesis
    by (cases out) (simp_all add: precache_one_def catch_p_def resolve_def)
qed

lemma precache_one_stores:
  "stores (snd (precache_one h n u w)) =
     (case add_result h n (new_Request u ''reload'') of
        Inl e \<Rightarrow> stores w
      | Inr r \<Rightarrow> put_entry n (''GET'', u) r (stores w))"
  by (simp add: precache_one_snd cache_add_fst cache_add_stores console_warn_def
      cache_key_def new_Request_def split: sum.splits)

lemma precache_one_unhandled: "unhandled (snd (precache_one h n u w)) = unhandled w"
  by (simp add: precache_one_snd cache_add_unhandled console_warn_def split: sum.splits)

lemma precache_one_console:
  "console (snd (precache_one h n u w)) = console w @
     (case add_result h n (new_Request u ''reload'') of
        Inl e \<Rightarrow> [(Warn, [Str (''[ServiceWorker] Failed to cache '' @ u @ '':''), Err e])]
      | Inr r \<Rightarrow> [])"
  by (simp add: precache_one_snd cache_add_fst cache_add_console console_warn_def
      split: sum.splits)

lemma precache_one_calls:
  "\<exists>cs. calls (snd (precache_one h n u w)) = calls w @ Fetch (new_Request u ''reload'') # cs"
  using cache_add_calls [of h n "new_Request u ''reload''" w]
  by (auto simp add: precache_one_snd console_warn_def split: sum.splits)

lemma precache_one_lookup:
  "lookup_store m (stores (snd (precache_one h n u w))) k =
     (if m = n \<and> n \<in> fst ` set (stores w) \<and> k = (''GET'', u) then
        (case add_result h n (new_Request u ''reload'') of
           Inr r \<Rightarrow> Some r
         | Inl e \<Rightarrow> lookup_store m (stores w) k)
      else lookup_store m (stores w) k)"
  by (cases "add_result h n (new_Request u ''reload'')")
    (simp_all add: precache_one_stores lookup_store_put_entry)

lemma precache_one_names:
  "fst ` set (stores (snd (precache_one h n u w))) = fst ` set (stores w)"
  by (cases "add_result h n (new_Request u ''reload'')")
    (simp_all add: precache_one_stores fst_set_put_entry)

lemma precache_all_resolves:
  "\<exists>vs. fst (promise_all (map (precache_one h n) urls) w) = Inr vs"
  by (rule promise_all_resolves) (auto simp: precache_one_fst)

lemma precache_all_unhandled:
  "unhandled (snd (promise_all (map (precache_one h n) urls) w)) = unhandled w"
proof (induction urls arbitrary: w)
  case Nil
  show ?case by simp
next
  case (Cons u urls)
  show ?case by (simp only: list.map snd_promise_all_Cons Cons.IH precache_one_unhandled)
qed

lemma precache_all_names:
  "fst ` set (stores (snd (promise_all (map (precache_one h n) urls) w))) = fst ` set (stores w)"
proof (induction urls arbitrary: w)
  case Nil
  show ?case by simp
next
  case (Cons u urls)
  show ?case by (simp only: list.map snd_promise_all_Cons Cons.IH precache_one_names)
qed

lemma precache_all_lookup:
  "lookup_store m (stores (snd (promise_all (map (precache_one h n) urls) w))) k =
     (if m = n \<and> n \<in> fst ` set (stores w) \<and> fst k = ''GET'' \<and> snd k \<in> set urls then
        (case add_result h n (new_Request (snd k) ''reload'') of
           Inr r \<Rightarrow> Some r
         | Inl e \<Rightarrow> lookup_store m (stores w) k)
      else lookup_store m (stores w) k)"
proof (induction urls arbitrary: w)
  case Nil
  show ?case by simp
next
  case (Cons u urls)
  have k: "k = (''GET'', u) \<longleftrightarrow> fst k = ''GET'' \<and> snd k = u" by (cases k) simp
  show ?case
    unfolding list.map snd_promise_all_Cons Cons.IH precache_one_names precache_one_lookup k
    by (cases "add_result h n (new_Request (snd k) ''reload'')") auto
qed

lemma precache_all_calls:
  "\<exists>cs. calls (snd (promise_all (map (precache_one h n) urls) w)) = calls w @ cs \<and>
        (\<forall>u \<in> set urls. Fetch (new_Request u ''reload'') \<in> set cs)"
proof (induction urls arbitrary: w)
  case Nil
  show ?case by simp
next
  case (Cons u urls)
  from precache_one_calls [of h n u w] obtain c1 where
    c1: "calls (snd (precache_one h n u w)) = calls w @ Fetch (new_Request u ''reload'') # c1"
    by blast
  from Cons.IH [of "snd (precache_one h n u w)"] obtain c2 where
    c2: "calls (snd (promise_all (map (precache_one h n) urls) (snd (precache_one h n u w)))) =
           calls (snd (precache_one h n u w)) @ c2"
    and all: "\<forall>u \<in> set urls. Fetch (new_Request u ''reload'') \<in> set c2"
    by blast
  have "calls (snd (promise_all (map (precache_one h n) (u # urls)) w)) =
      calls w @ (Fetch (new_Request u ''reload'') # c1 @ c2)"
    by (simp only: list.map snd_promise_all_Cons c2 c1) simp
  moreover have "\<forall>v \<in> set (u # urls).
      Fetch (new_Request v ''reload'') \<in> set (Fetch (new_Request u ''reload'') # c1 @ c2)"
    using all by auto
  ultimately show ?case by blast
qed

lemma precache_all_console:
  "\<exists>ms. console (snd (promise_all (map (precache_one h n) urls) w)) = console w @ ms \<and>
        (\<forall>u \<in> set urls. \<forall>e. add_result h n (new_Request u ''reload'') = Inl e \<longrightarrow>
           (Warn, [Str (''[ServiceWorker] Failed to cache '' @ u @ '':''), Err e]) \<in> set ms)"
proof (induction urls arbitrary: w)
  case Nil
  show ?case by simp
next
  case (Cons u urls)
  let ?m1 = "case add_result h n (new_Request u ''reload'') of
        Inl e \<Rightarrow> [(Warn, [Str (''[ServiceWorker] Failed to cache '' @ u @ '':''), Err e])]
      | Inr r \<Rightarrow> []"
  from Cons.IH [of "snd (precache_one h n u w)"] obtain m2 where
    m2: "console (snd (promise_all (map (precache_one h n) urls) (snd (precache_one h n u w)))) =
           console (snd (precache_one h n u w)) @ m2"
    and all: "\<forall>u \<in> set urls. \<forall>e. add_result h n (new_Request u ''reload'') = Inl e \<longrightarrow>
           (Warn, [Str (''[ServiceWorker] Failed to cache '' @ u @ '':''), Err e]) \<in> set m2"
    by blast
  have "console (snd (promise_all (map (precache_one h n) (u # urls)) w)) =
      console w @ (?m1 @ m2)"
    by (simp only: list.map snd_promise_all_Cons m2 precache_one_console) simp
  moreover have "\<forall>v \<in> set (u # urls). \<forall>e. add_result h n (new_Request v ''reload'') = Inl e \<longrightarrow>
           (Warn, [Str (''[ServiceWorker] Failed to cache '' @ v @ '':''), Err e]) \<in> set (?m1 @ m2)"
    using all by auto
  ultimately show ?case by blast
qed

lemma install_with_open_failed:
  assumes "open_error h CACHE_NAME = Some e"
  shows "install_with h urls w =
     (Inr (), skipWaiting
        (console_error [Str ''[ServiceWorker] Failed to cache during install:'', Err e]
           (called (CachesOpen CACHE_NAME) (console_log [Str ''[ServiceWorker] Install''] w))))"
  using assms
  by (simp add: install_with_def Let_def catch_p_def then_p_def caches_open_def resolve_def)

text \<open>The world in which the pre-cache attempts start, when the store could be opened.\<close>

lemma install_with_opened:
  assumes "open_error h CACHE_NAME = None"
  shows "install_with h urls w =
     (Inr (), skipWaiting (snd (promise_all (map (precache_one h CACHE_NAME) urls)
        (console_log [Str ''[ServiceWorker] Caching app shell'']
           (snd (caches_open h CACHE_NAME (console_log [Str ''[ServiceWorker] Install''] w)))))))"
proof -
  let ?w1 = "console_log [Str ''[ServiceWorker] Caching app shell'']
           (snd (caches_open h CACHE_NAME (console_log [Str ''[ServiceWorker] Install''] w)))"
  from precache_all_resolves obtain vs where
    "fst (promise_all (map (precache_one h CACHE_NAME) urls) ?w1) = Inr vs"
    by blast
  then have v: "void (promise_all (map (precache_one h CACHE_NAME) urls)) ?w1 =
      (Inr (), snd (promise_all (map (precache_one h CACHE_NAME) urls) ?w1))"
    by (rule void_resolves)
  have o: "caches_open h CACHE_NAME (console_log [Str ''[ServiceWorker] Install''] w) =
      (Inr CACHE_NAME, snd (caches_open h CACHE_NAME (console_log [Str ''[ServiceWorker] Install''] w)))"
    using assms by (simp add: caches_open_def)
  show ?thesis
    unfolding install_with_def Let_def catch_p_def then_p_def
    by (subst o) (simp add: v)
qed

lemma opened_names:
  "open_error h n = None \<Longrightarrow> n \<in> fst ` set (stores (snd (caches_open h n w)))"
  by (simp add: caches_open_def called_def)

lemma opened_lookup:
  "lookup_store m (stores (snd (caches_open h n w))) k = lookup_store m (stores w) k"
  by (simp add: caches_open_def called_def lookup_store_append_empty split: option.splits)

lemma opened_unhandled: "unhandled (snd (caches_open h n w)) = unhandled w"
  by (simp add: caches_open_def called_def split: option.splits)

lemma opened_calls: "calls (snd (caches_open h n w)) = calls w @ [CachesOpen n]"
  by (simp add: caches_open_def called_def split: option.splits)

lemma console_called: "console (called c w) = console w"
  by (simp add: called_def)

lemma install_with_resolves: "fst (install_with h urls w) = Inr ()"
  by (cases "open_error h CACHE_NAME")
    (simp_all add: install_with_opened install_with_open_failed)

lemma install_with_unhandled: "unhandled (snd (install_with h urls w)) = unhandled w"
proof (cases "open_error h CACHE_NAME")
  case None
  then show ?thesis
    by (simp only: install_with_opened snd_conv skipWaiting_def unhandled_called
        precache_all_unhandled unhandled_console_log opened_unhandled)
next
  case (Some e)
  then show ?thesis
    by (simp add: install_with_open_failed skipWaiting_def called_def console_error_def
        console_log_def)
qed

lemma install_with_lookup:
  assumes "open_error h CACHE_NAME = None"
  shows "lookup_store CACHE_NAME (stores (snd (install_with h urls w))) (''GET'', u) =
     (if u \<in> set urls then
        (case add_result h CACHE_NAME (new_Request u ''reload'') of
           Inr r \<Rightarrow> Some r
         | Inl e \<Rightarrow> lookup_store CACHE_NAME (stores w) (''GET'', u))
      else lookup_store CACHE_NAME (stores w) (''GET'', u))"
proof -
  let ?w0 = "snd (caches_open h CACHE_NAME (console_log [Str ''[ServiceWorker] Install''] w))"
  have n: "CACHE_NAME \<in> fst ` set (stores ?w0)"
    using assms by (rule opened_names)
  have l: "lookup_store CACHE_NAME (stores ?w0) (''GET'', u) =
      lookup_store CACHE_NAME (stores w) (''GET'', u)"
    by (simp only: opened_lookup stores_console_log)
  show ?thesis
    by (simp only: install_with_opened [OF assms] snd_conv skipWaiting_def stores_called
        precache_all_lookup stores_console_log)
      (simp add: n l split: sum.splits)
qed

lemma install_with_fetches:
  assumes "open_error h CACHE_NAME = None" and "u \<in> set urls"
  shows "Fetch (new_Request u ''reload'') \<in> set (new_calls w (snd (install_with h urls w)))"
proof -
  let ?w1 = "console_log [Str ''[ServiceWorker] Caching app shell'']
           (snd (caches_open h CACHE_NAME (console_log [Str ''[ServiceWorker] Install''] w)))"
  have c1: "calls ?w1 = calls w @ [CachesOpen CACHE_NAME]"
    by (simp add: console_log_def opened_calls)
  from precache_all_calls [of h CACHE_NAME urls ?w1] obtain cs where
    cs: "calls (snd (promise_all (map (precache_one h CACHE_NAME) urls) ?w1)) = calls ?w1 @ cs"
    and all: "\<forall>u \<in> set urls. Fetch (new_Request u ''reload'') \<in> set cs"
    by blast
  have "calls (snd (install_with h urls w)) = calls w @ (CachesOpen CACHE_NAME # cs @ [SkipWaiting])"
    by (simp only: install_with_opened [OF assms(1)] snd_conv skipWaiting_def called_def cs c1)
      simp
  then have "new_calls w (snd (install_with h urls w)) = CachesOpen CACHE_NAME # cs @ [SkipWaiting]"
    by (simp add: new_calls_def)
  with all assms(2) show ?thesis by simp
qed

lemma install_with_warns:
  assumes "open_error h CACHE_NAME = None" and "u \<in> set urls"
    and "add_result h CACHE_NAME (new_Request u ''reload'') = Inl e"
  shows "(Warn, [Str (''[ServiceWorker] Failed to cache '' @ u @ '':''), Err e])
           \<in> set (console (snd (install_with h urls w)))"
proof -
  let ?w1 = "console_log [Str ''[ServiceWorker] Caching app shell'']
           (snd (caches_open h CACHE_NAME (console_log [Str ''[ServiceWorker] Install''] w)))"
  from precache_all_console [of h CACHE_NAME urls ?w1] obtain ms where
    ms: "console (snd (promise_all (map (precache_one h CACHE_NAME) urls) ?w1)) = console ?w1 @ ms"
    and all: "\<forall>u \<in> set urls. \<forall>e. add_result h CACHE_NAME (new_Request u ''reload'') = Inl e \<longrightarrow>
           (Warn, [Str (''[ServiceWorker] Failed to cache '' @ u @ '':''), Err e]) \<in> set ms"
    by blast
  have "console (snd (install_with h urls w)) = console ?w1 @ ms"
    by (simp only: install_with_opened [OF assms(1)] snd_conv skipWaiting_def console_called ms)
  with all assms(2,3) show ?thesis by simp
qed

lemma add_result_resolved:
  assumes "fst (cache_add h n rq w) = Inr ()" and "net h rq = Inr (Some r)"
  shows "add_result h n rq = Inr r"
  using assms
  by (simp add: cache_add_fst) (simp add: add_result_def split: if_splits option.splits)

lemma add_result_rejected:
  assumes "fst (cache_add h n rq w) = Inl e"
  shows "add_result h n rq = Inl e"
  using assms by (simp add: cache_add_fst split: sum.splits)

text \<open>
  C8, as stated, fails in its last part: a failed item need not be absent. The store is
  opened, not created afresh, so when it already holds an entry for a URL of the list
  (an earlier install of the same version) and the fetch of that URL now fails, the
  install completes and the old entry is still there.
\<close>

theorem install_failed_item_present_counterexample:
  "''./index.html'' \<in> set urlsToCache \<and>
   net offline_host (new_Request ''./index.html'' ''reload'') = Inl TypeError \<and>
   fst (cache_add offline_host CACHE_NAME (new_Request ''./index.html'' ''reload'') cached_world)
     = Inl TypeError \<and>
   fst (install_handler offline_host cached_world) = Inr () \<and>
   lookup_store CACHE_NAME (stores (snd (install_handler offline_host cached_world)))
     (cache_key (new_Request ''./index.html'' ''reload'')) = Some old_response"
proof -
  have o: "open_error offline_host CACHE_NAME = None" by (simp add: offline_host_def)
  have a: "add_result offline_host CACHE_NAME (new_Request ''./index.html'' ''reload'') = Inl TypeError"
    by (simp add: add_result_def offline_host_def)
  have l: "lookup_store CACHE_NAME (stores cached_world) (''GET'', ''./index.html'') = Some old_response"
    by (simp add: lookup_store_def cached_world_def cache_key_def page_request_def)
  have k: "cache_key (new_Request ''./index.html'' ''reload'') = (''GET'', ''./index.html'')"
    by (simp add: cache_key_def new_Request_def)
  have u: "''./index.html'' \<in> set urlsToCache" by (simp add: urlsToCache_def)
  show ?thesis
    unfolding install_handler_def k install_with_lookup [OF o] install_with_resolves
      cache_add_fst
    using a l u by (simp add: offline_host_def)
qed

text \<open>
  C8, amended. For every pre-cache list, the promise given to \<open>waitUntil\<close> resolves and
  nothing is left unhandled, whatever fails. When the store could be opened, the world in
  which the promise settles has the attempt of every URL of the list behind it (each was
  fetched); each URL whose attempt succeeded (\<open>cache.add\<close> resolved: the fetch gave a
  response with a status in 200..299 other than 206 and the \<open>put\<close> succeeded) has that response in the
  current-version store; and each URL whose attempt failed has a warning with the error
  on the console and, in the store, the entry it had before the install: none, if it
  had none.
\<close>

theorem install_settles_after_all_attempts:
  "fst (install_with h urls w) = Inr () \<and>
   unhandled (snd (install_with h urls w)) = unhandled w \<and>
   (open_error h CACHE_NAME = None \<longrightarrow>
     (\<forall>u \<in> set urls.
        Fetch (new_Request u ''reload'') \<in> set (new_calls w (snd (install_with h urls w))) \<and>
        (\<forall>r. fst (cache_add h CACHE_NAME (new_Request u ''reload'') w) = Inr () \<and>
             net h (new_Request u ''reload'') = Inr (Some r) \<longrightarrow>
             lookup_store CACHE_NAME (stores (snd (install_with h urls w)))
               (cache_key (new_Request u ''reload'')) = Some r) \<and>
        (\<forall>e. fst (cache_add h CACHE_NAME (new_Request u ''reload'') w) = Inl e \<longrightarrow>
             (Warn, [Str (''[ServiceWorker] Failed to cache '' @ u @ '':''), Err e])
               \<in> set (console (snd (install_with h urls w))) \<and>
             lookup_store CACHE_NAME (stores (snd (install_with h urls w)))
               (cache_key (new_Request u ''reload'')) =
             lookup_store CACHE_NAME (stores w) (cache_key (new_Request u ''reload'')))))"
proof (intro conjI impI ballI allI)
  show "fst (install_with h urls w) = Inr ()" by (rule install_with_resolves)
next
  show "unhandled (snd (install_with h urls w)) = unhandled w" by (rule install_with_unhandled)
next
  fix u
  assume "open_error h CACHE_NAME = None" and "u \<in> set urls"
  then show "Fetch (new_Request u ''reload'') \<in> set (new_calls w (snd (install_with h urls w)))"
    by (rule install_with_fetches)
next
  fix u r
  assume o: "open_error h CACHE_NAME = None" and u: "u \<in> set urls"
    and "fst (cache_add h CACHE_NAME (new_Request u ''reload'') w) = Inr () \<and>
         net h (new_Request u ''reload'') = Inr (Some r)"
  then have "add_result h CACHE_NAME (new_Request u ''reload'') = Inr r"
    using add_result_resolved by blast
  with u show "lookup_store CACHE_NAME (stores (snd (install_with h urls w)))
               (cache_key (new_Request u ''reload'')) = Some r"
    by (simp add: cache_key_def new_Request_def [of u] install_with_lookup [OF o])
next
  fix u e
  assume o: "open_error h CACHE_NAME = None" and u: "u \<in> set urls"
    and "fst (cache_add h CACHE_NAME (new_Request u ''reload'') w) = Inl e"
  then have "add_result h CACHE_NAME (new_Request u ''reload'') = Inl e"
    by (simp add: add_result_rejected)
  from install_with_warns [OF o u this]
  show "(Warn, [Str (''[ServiceWorker] Failed to cache '' @ u @ '':''), Err e])
               \<in> set (console (snd (install_with h urls w)))" .
next
  fix u e
  assume o: "open_error h CACHE_NAME = None" and u: "u \<in> set urls"
    and "fst (cache_add h CACHE_NAME (new_Request u ''reload'') w) = Inl e"
  then have "add_result h CACHE_NAME (new_Request u ''reload'') = Inl e"
    by (simp add: add_result_rejected)
  with u show "lookup_store CACHE_NAME (stores (snd (install_with h urls w)))
               (cache_key (new_Request u ''reload'')) =
             lookup_store CACHE_NAME (stores w) (cache_key (new_Request u ''reload''))"
    by (simp add: cache_key_def new_Request_def [of u] install_with_lookup [OF o])
qed

theorem install_settles_after_all_attempts_witness:
  "open_error flaky_host CACHE_NAME = None \<and>
   ''./'' \<in> set urlsToCache \<and> ''./index.html'' \<in> set urlsToCache \<and>
   fst (install_with flaky_host urlsToCache empty_world) = Inr () \<and>
   fst (cache_add flaky_host CACHE_NAME (new_Request ''./'' ''reload'') empty_world) = Inr () \<and>
   net flaky_host (new_Request ''./'' ''reload'') = Inr (Some ok_response) \<and>
   lookup_store CACHE_NAME (stores (snd (install_with flaky_host urlsToCache empty_world)))
     (cache_key (new_Request ''./'' ''reload'')) = Some ok_response \<and>
   fst (cache_add flaky_host CACHE_NAME (new_Request ''./index.html'' ''reload'') empty_world)
     = Inl TypeError \<and>
   (Warn, [Str ''[ServiceWorker] Failed to cache ./index.html:'', Err TypeError])
     \<in> set (console (snd (install_with flaky_host urlsToCache empty_world))) \<and>
   lookup_store CACHE_NAME (stores (snd (install_with flaky_host urlsToCache empty_world)))
     (cache_key (new_Request ''./index.html'' ''reload'')) = None"
proof -
  have o: "open_error flaky_host CACHE_NAME = None" by (simp add: flaky_host_def)
  have u1: "''./'' \<in> set urlsToCache" by (simp add: urlsToCache_def)
  have u2: "''./index.html'' \<in> set urlsToCache" by (simp add: urlsToCache_def)
  have a1: "fst (cache_add flaky_host CACHE_NAME (new_Request ''./'' ''reload'') empty_world) = Inr ()"
    by (simp add: cache_add_fst add_result_def flaky_host_def new_Request_def ok_response_def)
  have n1: "net flaky_host (new_Request ''./'' ''reload'') = Inr (Some ok_response)"
    by (simp add: flaky_host_def new_Request_def)
  have a2: "fst (cache_add flaky_host CACHE_NAME (new_Request ''./index.html'' ''reload'') empty_world)
     = Inl TypeError"
    by (simp add: cache_add_fst add_result_def flaky_host_def new_Request_def)
  have l: "lookup_store CACHE_NAME (stores empty_world)
     (cache_key (new_Request ''./index.html'' ''reload'')) = None"
    by (simp add: lookup_store_def empty_world_def)
  note T = install_settles_after_all_attempts [of flaky_host urlsToCache empty_world]
  from T have r: "fst (install_with flaky_host urlsToCache empty_world) = Inr ()" by (rule conjunct1)
  from T o have all: "\<forall>u \<in> set urlsToCache.
        Fetch (new_Request u ''reload'')
          \<in> set (new_calls empty_world (snd (install_with flaky_host urlsToCache empty_world))) \<and>
        (\<forall>r. fst (cache_add flaky_host CACHE_NAME (new_Request u ''reload'') empty_world) = Inr () \<and>
             net flaky_host (new_Request u ''reload'') = Inr (Some r) \<longrightarrow>
             lookup_store CACHE_NAME (stores (snd (install_with flaky_host urlsToCache empty_world)))
               (cache_key (new_Request u ''reload'')) = Some r) \<and>
        (\<forall>e. fst (cache_add flaky_host CACHE_NAME (new_Request u ''reload'') empty_world) = Inl e \<longrightarrow>
             (Warn, [Str (''[ServiceWorker] Failed to cache '' @ u @ '':''), Err e])
               \<in> set (console (snd (install_with flaky_host urlsToCache empty_world))) \<and>
             lookup_store CACHE_NAME (stores (snd (install_with flaky_host urlsToCache empty_world)))
               (cache_key (new_Request u ''reload'')) =
             lookup_store CACHE_NAME (stores empty_world) (cache_key (new_Request u ''reload'')))"
    by (elim conjE impE) assumption
  from bspec [OF all u1] a1 n1
  have s1: "lookup_store CACHE_NAME (stores (snd (install_with flaky_host urlsToCache empty_world)))
     (cache_key (new_Request ''./'' ''reload'')) = Some ok_response"
    by blast
  from bspec [OF all u2] a2
  have s2: "(Warn, [Str (''[ServiceWorker] Failed to cache '' @ ''./index.html'' @ '':''), Err TypeError])
       \<in> set (console (snd (install_with flaky_host urlsToCache empty_world))) \<and>
     lookup_store CACHE_NAME (stores (snd (install_with flaky_host urlsToCache empty_world)))
       (cache_key (new_Request ''./index.html'' ''reload'')) =
     lookup_store CACHE_NAME (stores empty_world) (cache_key (new_Request ''./index.html'' ''reload''))"
    by blast
  from o u1 u2 r a1 n1 s1 a2 s2 l show ?thesis by simp
qed

subsection \<open>Rejections that nobody handles\<close>

lemma fetch_handler_no_unhandled:
  assumes "open_error h CACHE_NAME = None"
    and "\<forall>r. net h rq = Inr (Some r) \<longrightarrow> put_error h CACHE_NAME rq r = None"
  shows "unhandled (snd (fetch_handler h rq w)) = unhandled w"
  using assms
  by (simp add: fetch_defs promise_defs host_defs Let_def
      split: option.splits sum.splits if_splits)

text \<open>
  C1, as stated, fails: the chains that write a fetched response into the store, on the
  navigation success path and on the asset cache-miss success path, are built and let go
  with nothing attached. On a host whose storage is full the \<open>put\<close> rejects, and the
  rejection is left unhandled on both paths.
\<close>

theorem detached_write_unhandled_counterexample:
  "req_method page_request = ''GET'' \<and> req_mode page_request = ''navigate'' \<and>
   req_method asset_request = ''GET'' \<and> req_mode asset_request \<noteq> ''navigate'' \<and>
   unhandled empty_world = [] \<and>
   unhandled (snd (fetch_handler full_host page_request empty_world)) = [QuotaExceededError] \<and>
   unhandled (snd (fetch_handler full_host asset_request empty_world)) = [QuotaExceededError]"
  by (simp add: fetch_defs promise_defs host_defs example_defs Let_def)

text \<open>
  C1, amended. The promise given to \<open>waitUntil\<close> by the install and activate handlers
  resolves and these handlers leave no rejection unhandled; the promise given to
  \<open>respondWith\<close> by the fetch handler never rejects; and the fetch handler leaves no
  rejection unhandled when its detached write does not fail, that is when opening the
  current-version store succeeds and the \<open>put\<close> of the response the network gave
  succeeds.
\<close>

theorem rejections_handled_when_writes_succeed:
  "fst (install_with h urls w) = Inr () \<and>
   unhandled (snd (install_with h urls w)) = unhandled w \<and>
   fst (activate_handler h w) = Inr () \<and>
   unhandled (snd (activate_handler h w)) = unhandled w \<and>
   (\<forall>e. fst (fetch_handler h rq w) \<noteq> RespondWith (Inl e)) \<and>
   (open_error h CACHE_NAME = None \<and>
    (\<forall>r. net h rq = Inr (Some r) \<longrightarrow> put_error h CACHE_NAME rq r = None) \<longrightarrow>
      unhandled (snd (fetch_handler h rq w)) = unhandled w)"
proof (intro conjI allI impI)
  show "fst (install_with h urls w) = Inr ()" by (rule install_with_resolves)
  show "unhandled (snd (install_with h urls w)) = unhandled w" by (rule install_with_unhandled)
  show "fst (activate_handler h w) = Inr ()" by (simp add: activate_handler_eq)
  show "unhandled (snd (activate_handler h w)) = unhandled w"
    by (rule activate_handler_unhandled)
  show "fst (fetch_handler h rq w) \<noteq> RespondWith (Inl e)" for e
    by (rule fetch_handler_resolves)
  show "unhandled (snd (fetch_handler h rq w)) = unhandled w"
    if "open_error h CACHE_NAME = None \<and>
        (\<forall>r. net h rq = Inr (Some r) \<longrightarrow> put_error h CACHE_NAME rq r = None)"
    using that fetch_handler_no_unhandled [of h rq w] by blast
qed

theorem rejections_handled_when_writes_succeed_witness:
  "open_error online_host CACHE_NAME = None \<and>
   net online_host page_request = Inr (Some ok_response) \<and>
   put_error online_host CACHE_NAME page_request ok_response = None \<and>
   fst (fetch_handler online_host page_request empty_world) \<noteq> RespondWith (Inl TypeError) \<and>
   unhandled (snd (fetch_handler online_host page_request empty_world)) = unhandled empty_world \<and>
   fst (install_with online_host urlsToCache empty_world) = Inr () \<and>
   fst (activate_handler online_host empty_world) = Inr ()"
proof -
  have 1: "open_error online_host CACHE_NAME = None" by (simp add: online_host_def)
  have 2: "\<forall>r. net online_host page_request = Inr (Some r) \<longrightarrow>
        put_error online_host CACHE_NAME page_request r = None"
    by (simp add: online_host_def)
  note T = rejections_handled_when_writes_succeed
    [of online_host urlsToCache empty_world page_request]
  from T have a: "fst (install_with online_host urlsToCache empty_world) = Inr ()"
    by (elim conjE)
  from T have b: "fst (activate_handler online_host empty_world) = Inr ()"
    by (elim conjE)
  from T have c: "\<forall>e. fst (fetch_handler online_host page_request empty_world) \<noteq> RespondWith (Inl e)"
    by (elim conjE)
  from T 1 2 have d: "unhandled (snd (fetch_handler online_host page_request empty_world)) =
      unhandled empty_world"
    by (elim conjE impE) (rule conjI, assumption+)
  have 3: "net online_host page_request = Inr (Some ok_response)"
    by (simp add: online_host_def)
  have 4: "put_error online_host CACHE_NAME page_request ok_response = None"
    by (simp add: online_host_def)
  from 1 3 4 a b c d show ?thesis by simp
qed

end
